theory Spec2Isabelle
  imports Main "HOL-Library.AList"
begin

section \<open>Collaborators of the screens\<close>

text \<open>
  The screens talk to two collaborators through promises: the Appwrite service
  (\<^verbatim>\<open>appwrite.getCurrentUser\<close>, \<^verbatim>\<open>createpreferences\<close>, \<^verbatim>\<open>savepreferences\<close>,
  \<^verbatim>\<open>getpreferences\<close>) and the news service (\<^verbatim>\<open>getCategoryNewsFromAPI\<close>,
  \<^verbatim>\<open>getTrendingNewsFromAPI\<close>). Their code is not part of the screens; what a call
  answers is a parameter of every function below. A settled promise is either resolved
  with a value or rejected with an error (shown as text).
\<close>

datatype 'a promise = Resolved 'a | Rejected string

text \<open>
  The user object the service resolves with. \<^verbatim>\<open>$id\<close> may be missing
  (\<^verbatim>\<open>undefined\<close>), which is \<open>None\<close>.
\<close>

record User =
  user_id :: "string option"
  user_name :: string
  user_email :: string

text \<open>The preference document: \<^verbatim>\<open>$id\<close> and \<^verbatim>\<open>interested_categories\<close>.\<close>

record Document =
  doc_id :: "string option"
  interested_categories :: "string list"

text \<open>
  The three preference calls receive \<^verbatim>\<open>showSnackbar\<close> as a callback. A reply
  therefore carries the messages the service passed to that callback while the call
  ran, followed by the way the promise settled.
\<close>

record 'a reply =
  shown :: "string list"
  outcome :: "'a promise"

text \<open>The calls a screen issues, in the order it issues them.\<close>

datatype call =
    GetCurrentUser
  | CreatePreferences string "string list"
  | SavePreferences string string "string list"
  | GetPreferences string
  | GetCategoryNews "string list"
  | GetTrendingNews

text \<open>
  JavaScript truthiness of a value of type \<^verbatim>\<open>string | null | undefined\<close>: the
  empty string, \<^verbatim>\<open>null\<close> and \<^verbatim>\<open>undefined\<close> are falsy.
\<close>

fun truthy :: "string option \<Rightarrow> bool" where
  "truthy None = False"
| "truthy (Some s) = (s \<noteq> [])"

text \<open>The string a truthy value holds; \<open>None\<close> for a falsy value.\<close>

definition when_truthy :: "string option \<Rightarrow> string option" where
  "when_truthy x = (if truthy x then x else None)"

text \<open>\<^verbatim>\<open>user && user.$id\<close>: the identifier when the test succeeds.\<close>

fun usable_id :: "User option \<Rightarrow> string option" where
  "usable_id None = None"
| "usable_id (Some u) = when_truthy (user_id u)"

text \<open>\<^verbatim>\<open>response && response.$id\<close> on a preference document.\<close>

fun response_id :: "Document option \<Rightarrow> string option" where
  "response_id None = None"
| "response_id (Some d) = when_truthy (doc_id d)"

text \<open>
  A \<^verbatim>\<open>Record<string, T>\<close> is a plain object: its own properties, kept as an
  association list, on top of \<^verbatim>\<open>Object.prototype\<close>. Reading \<^verbatim>\<open>obj[k]\<close> finds
  an own property first and a member of the prototype next; every such member is a
  function or the prototype itself, so it is truthy and has no \<^verbatim>\<open>slice\<close>. Writing
  \<^verbatim>\<open>obj[k] = v\<close> adds or replaces an own property, except for the key
  \<^verbatim>\<open>__proto__\<close>, whose setter changes the prototype and leaves the own properties
  as they are. The members listed are those the language standard gives
  \<^verbatim>\<open>Object.prototype\<close>, its Annex B included.
\<close>

definition Object_prototype :: "string list" where
  "Object_prototype =
     [''constructor'', ''hasOwnProperty'', ''isPrototypeOf'', ''propertyIsEnumerable'',
      ''toLocaleString'', ''toString'', ''valueOf'', ''__proto__'',
      ''__defineGetter__'', ''__defineSetter__'', ''__lookupGetter__'', ''__lookupSetter__'']"

datatype 'a member = Own 'a | Inherited | Absent

definition get_member :: "(string \<times> 'a) list \<Rightarrow> string \<Rightarrow> 'a member" where
  "get_member obj k =
     (case map_of obj k of
        Some v \<Rightarrow> Own v
      | None \<Rightarrow> if k \<in> set Object_prototype then Inherited else Absent)"

definition set_member :: "string \<Rightarrow> 'a \<Rightarrow> (string \<times> 'a) list \<Rightarrow> (string \<times> 'a) list" where
  "set_member k v obj = (if k = ''__proto__'' then obj else AList.update k v obj)"

section \<open>The Browse screen (src/app/screens/browse.tsx)\<close>

record UserObj =
  name :: string
  email :: string

record NewsArticle =
  url :: string
  title :: string
  author :: "string option"
  content :: "string option"
  urlToImage :: "string option"
  description :: string
  publishedAt :: string
  source :: "(string option \<times> string) option"

text \<open>
  The state of one mounted Browse component: its \<^verbatim>\<open>useState\<close> cells, the
  \<^verbatim>\<open>isLoggedIn\<close> cell of the Appwrite context it writes, and two traces that make
  its effects visible: the calls issued to the collaborators and the lines written with
  \<^verbatim>\<open>console.log\<close>. \<^verbatim>\<open>Record<string, NewsArticle[]>\<close> is an association list;
  the theorems below use lookup and emptiness of it only, never the order of its keys.
  The last trace, \<open>unhandled\<close>, holds the rejections that reach no handler.
\<close>

record Browse =
  userData :: "UserObj option"
  newsData :: "(string \<times> NewsArticle list) list"
  selectedCategories :: "string list"
  isLoggedIn :: bool
  snackbarVisible :: bool
  snackbarMessage :: string
  documentId :: "string option"
  isLoading :: bool
  isRefreshing :: bool
  error :: "string option"
  calls :: "call list"
  console :: "string list"
  unhandled :: "string list"

text \<open>The initial values of the \<^verbatim>\<open>useState\<close> cells (lines 29 to 38).\<close>

definition initial_documentId :: "string option" where
  "initial_documentId = None"

definition Browse_mount :: "bool \<Rightarrow> Browse" where
  "Browse_mount ctx_isLoggedIn =
     \<lparr> userData = None, newsData = [], selectedCategories = [],
       isLoggedIn = ctx_isLoggedIn,
       snackbarVisible = False, snackbarMessage = [],
       documentId = initial_documentId,
       isLoading = False, isRefreshing = False, error = None,
       calls = [], console = [], unhandled = [] \<rparr>"

definition showSnackbar :: "string \<Rightarrow> Browse \<Rightarrow> Browse" where
  "showSnackbar message s = s\<lparr> snackbarMessage := message, snackbarVisible := True \<rparr>"

definition issue :: "call \<Rightarrow> Browse \<Rightarrow> Browse" where
  "issue c s = s\<lparr> calls := calls s @ [c] \<rparr>"

definition console_log :: "string \<Rightarrow> Browse \<Rightarrow> Browse" where
  "console_log line s = s\<lparr> console := console s @ [line] \<rparr>"

text \<open>The service running the callback it was handed, once per message.\<close>

definition callbacks :: "string list \<Rightarrow> Browse \<Rightarrow> Browse" where
  "callbacks msgs s = fold showSnackbar msgs s"

subsection \<open>saveCategoriesToDatabase (lines 68 to 104)\<close>

text \<open>What the collaborator answers during one run of \<^verbatim>\<open>saveCategoriesToDatabase\<close>.\<close>

record save_env =
  getCurrentUser_reply :: "User option promise"
  createpreferences_reply :: "Document option reply"
  savepreferences_reply :: "Document option reply"

text \<open>The \<^verbatim>\<open>catch\<close> block of line 101.\<close>

definition catch_save :: "string \<Rightarrow> Browse \<Rightarrow> Browse" where
  "catch_save e s = console_log (''Error saving categories: '' @ e) s"

text \<open>Lines 75 to 82: the branch taken when \<^verbatim>\<open>documentId\<close> is truthy.\<close>

definition save_branch :: "string \<Rightarrow> string \<Rightarrow> save_env \<Rightarrow> string list \<Rightarrow> Browse \<Rightarrow> Browse" where
  "save_branch docid userId env categories s =
     (let r = savepreferences_reply env;
          s1 = callbacks (shown r) (issue (SavePreferences docid userId categories) s)
      in case outcome r of
           Rejected e \<Rightarrow> catch_save e s1
         | Resolved _ \<Rightarrow> showSnackbar ''Preferences updated successfully'' s1)"

text \<open>Lines 84 to 96: the branch taken when \<^verbatim>\<open>documentId\<close> is falsy.\<close>

definition create_branch :: "string \<Rightarrow> save_env \<Rightarrow> string list \<Rightarrow> Browse \<Rightarrow> Browse" where
  "create_branch userId env categories s =
     (let r = createpreferences_reply env;
          s1 = callbacks (shown r) (issue (CreatePreferences userId categories) s)
      in case outcome r of
           Rejected e \<Rightarrow> catch_save e s1
         | Resolved response \<Rightarrow>
             (let s2 = (case response_id response of
                          Some rid \<Rightarrow> s1\<lparr> documentId := Some rid \<rparr>
                        | None \<Rightarrow>
                            console_log ''Error: response from createpreferences is undefined'' s1)
              in showSnackbar ''Preferences updated successfully'' s2))"

text \<open>
  The function reads \<^verbatim>\<open>documentId\<close> from the closure of the render that created
  it; that value is the first argument. The other state is only written, through the
  setters, so it is threaded as the state \<open>s\<close>.
\<close>

definition saveCategoriesToDatabase ::
    "string option \<Rightarrow> save_env \<Rightarrow> string list \<Rightarrow> Browse \<Rightarrow> Browse" where
  "saveCategoriesToDatabase closure_documentId env categories s =
     (let s1 = issue GetCurrentUser s
      in case getCurrentUser_reply env of
           Rejected e \<Rightarrow> catch_save e s1
         | Resolved user \<Rightarrow>
             (case usable_id user of
                None \<Rightarrow> s1
              | Some userId \<Rightarrow>
                  (case when_truthy closure_documentId of
                     Some docid \<Rightarrow> save_branch docid userId env categories s1
                   | None \<Rightarrow> create_branch userId env categories s1)))"

subsection \<open>toggleCategory (lines 57 to 66)\<close>

text \<open>
  \<^verbatim>\<open>prev.includes(category) ? prev.filter(c => c !== category) : [...prev, category]\<close>
\<close>

definition updatedCategories :: "string list \<Rightarrow> string \<Rightarrow> string list" where
  "updatedCategories prev category =
     (if category \<in> set prev then filter (\<lambda>c. c \<noteq> category) prev else prev @ [category])"

text \<open>
  \<^verbatim>\<open>toggleCategory\<close> is built with \<^verbatim>\<open>useCallback(..., [])\<close>. With an empty
  dependency list React keeps, for the whole life of the component, the function
  object made by the first render. That object calls the
  \<^verbatim>\<open>saveCategoriesToDatabase\<close> of the first render, whose \<^verbatim>\<open>documentId\<close> is the
  constant of the first render: the initial value of the cell. \<^verbatim>\<open>prev\<close> on the other
  hand is handed in by React and is the current value of \<^verbatim>\<open>selectedCategories\<close>.
  One toggle is modelled as running to completion (state update, then the save with all
  its awaits) before the next event.
\<close>

definition toggleCategory :: "string \<Rightarrow> save_env \<Rightarrow> Browse \<Rightarrow> Browse" where
  "toggleCategory category env s =
     (let updated = updatedCategories (selectedCategories s) category
      in saveCategoriesToDatabase initial_documentId env updated
           (s\<lparr> selectedCategories := updated \<rparr>))"

text \<open>A run of presses on category buttons, each with what the service answers to it.\<close>

fun toggles :: "(string \<times> save_env) list \<Rightarrow> Browse \<Rightarrow> Browse" where
  "toggles [] s = s"
| "toggles ((category, env) # rest) s = toggles rest (toggleCategory category env s)"

text \<open>The persistence calls among a list of calls.\<close>

fun is_create :: "call \<Rightarrow> bool" where
  "is_create (CreatePreferences _ _) = True"
| "is_create _ = False"

fun is_save :: "call \<Rightarrow> bool" where
  "is_save (SavePreferences _ _ _) = True"
| "is_save _ = False"

definition persistence_calls :: "call list \<Rightarrow> call list" where
  "persistence_calls cs = filter (\<lambda>c. is_create c \<or> is_save c) cs"

subsection \<open>loadSavedCategories and onRefresh (lines 106 to 139)\<close>

record load_env =
  load_getCurrentUser_reply :: "User option promise"
  getpreferences_reply :: "Document option reply"

text \<open>The \<^verbatim>\<open>catch\<close> block of line 124.\<close>

definition catch_load :: "string \<Rightarrow> Browse \<Rightarrow> Browse" where
  "catch_load e s = console_log (''Error fetching saved categories: '' @ e) s"

definition loadSavedCategories :: "load_env \<Rightarrow> Browse \<Rightarrow> Browse" where
  "loadSavedCategories env s =
     (let s1 = issue GetCurrentUser s
      in case load_getCurrentUser_reply env of
           Rejected e \<Rightarrow> catch_load e s1
         | Resolved user \<Rightarrow>
             (case usable_id user of
                None \<Rightarrow> s1
              | Some userId \<Rightarrow>
                  (let r = getpreferences_reply env;
                       s2 = callbacks (shown r) (issue (GetPreferences userId) s1)
                   in case outcome r of
                        Rejected e \<Rightarrow> catch_load e s2
                      | Resolved response \<Rightarrow>
                          (case response of
                             Some d \<Rightarrow>
                               s2\<lparr> selectedCategories := interested_categories d,
                                   documentId := doc_id d \<rparr>
                           | None \<Rightarrow>
                               s2\<lparr> selectedCategories := [], documentId := None \<rparr>))))"

text \<open>
  The promise of \<^verbatim>\<open>loadSavedCategories\<close> always fulfils, its \<^verbatim>\<open>try\<close> spanning
  the whole body, so the \<^verbatim>\<open>catch\<close> of \<^verbatim>\<open>onRefresh\<close> is never entered.
\<close>

definition onRefresh :: "load_env \<Rightarrow> Browse \<Rightarrow> Browse" where
  "onRefresh env s =
     (let s1 = s\<lparr> isRefreshing := True \<rparr>;
          s2 = loadSavedCategories env s1;
          s3 = s2\<lparr> error := None \<rparr>
      in s3\<lparr> isRefreshing := False \<rparr>)"

subsection \<open>The effect run on mount (lines 141 to 154)\<close>

text \<open>
  \<^verbatim>\<open>appwrite.getCurrentUser().then(...)\<close> has no \<^verbatim>\<open>catch\<close>: a rejection stays
  unhandled.
\<close>

definition Browse_mount_effect :: "User option promise \<Rightarrow> load_env \<Rightarrow> Browse \<Rightarrow> Browse" where
  "Browse_mount_effect r env s =
     (let s1 = issue GetCurrentUser s
      in case r of
           Rejected e \<Rightarrow> s1\<lparr> unhandled := unhandled s1 @ [e] \<rparr>
         | Resolved None \<Rightarrow> s1
         | Resolved (Some response) \<Rightarrow>
             loadSavedCategories env
               (s1\<lparr> isLoggedIn := True,
                    userData := Some \<lparr> name = user_name response, email = user_email response \<rparr> \<rparr>))"

subsection \<open>fetchNewsData and the effect on selectedCategories (lines 156 to 182)\<close>

text \<open>
  The news service, as what \<^verbatim>\<open>getCategoryNewsFromAPI\<close> answers to a list of
  categories: a rejection, nothing, or a mapping from category to articles.
\<close>

type_synonym news_api = "string list \<Rightarrow> (string \<times> NewsArticle list) list option promise"

text \<open>
  The \<^verbatim>\<open>for\<close> loop of line 164 over the categories still to be fetched. \<open>Inl\<close> is
  the exception that leaves the loop: a rejection of the call, or the
  \<^verbatim>\<open>TypeError\<close> of calling \<^verbatim>\<open>slice\<close> on a member of the prototype.
  \<^verbatim>\<open>slice(0, 20)\<close> on an array is \<open>take 20\<close>.
\<close>

fun fetch_loop ::
    "news_api \<Rightarrow> string list \<Rightarrow> (string \<times> NewsArticle list) list \<Rightarrow> Browse
       \<Rightarrow> (string + (string \<times> NewsArticle list) list) \<times> Browse" where
  "fetch_loop api [] categoryData s = (Inr categoryData, s)"
| "fetch_loop api (category # rest) categoryData s =
     (case api [category] of
        Rejected e \<Rightarrow> (Inl e, issue (GetCategoryNews [category]) s)
      | Resolved response \<Rightarrow>
          (case response of
             None \<Rightarrow> fetch_loop api rest categoryData (issue (GetCategoryNews [category]) s)
           | Some r \<Rightarrow>
               (case get_member r category of
                  Absent \<Rightarrow> fetch_loop api rest categoryData (issue (GetCategoryNews [category]) s)
                | Inherited \<Rightarrow>
                    (Inl ''TypeError: response[category].slice is not a function'',
                     issue (GetCategoryNews [category]) s)
                | Own articles \<Rightarrow>
                    fetch_loop api rest
                      (set_member category (take 20 articles) categoryData)
                      (issue (GetCategoryNews [category]) s))))"

definition fetchNewsData :: "news_api \<Rightarrow> Browse \<Rightarrow> Browse" where
  "fetchNewsData api s =
     (let s1 = s\<lparr> isLoading := True, error := None \<rparr>
      in case fetch_loop api (selectedCategories s) [] s1 of
           (Inr categoryData, s2) \<Rightarrow> s2\<lparr> newsData := categoryData, isLoading := False \<rparr>
         | (Inl e, s2) \<Rightarrow>
             (showSnackbar ''Error loading news''
                (s2\<lparr> error := Some ''Failed to fetch news'' \<rparr>))\<lparr> isLoading := False \<rparr>)"

definition selectedCategories_effect :: "news_api \<Rightarrow> Browse \<Rightarrow> Browse" where
  "selectedCategories_effect api s =
     (if length (selectedCategories s) > 0 then fetchNewsData api s else s)"

subsection \<open>What is rendered (lines 217 to 258)\<close>

text \<open>
  Two built-in functions take part in drawing an article. \<^verbatim>\<open>encodeURI\<close> throws a
  \<^verbatim>\<open>URIError\<close> on a string with a lone surrogate, which is \<open>None\<close> here;
  \<^verbatim>\<open>new Date(x).toLocaleDateString()\<close> gives a text for every string. Both depend
  on the engine and the locale and are parameters of the rendering.
\<close>

record builtins =
  encodeURI :: "string \<Rightarrow> string option"
  toLocaleDateString :: "string \<Rightarrow> string"

datatype render_error = URIError | TypeError

text \<open>
  One article as drawn: the image with the encoded address when \<^verbatim>\<open>urlToImage\<close> is
  truthy, the title, the line with the publication date, and the article itself, which
  the press handler passes to the Detail route.
\<close>

record card =
  card_image :: "string option"
  card_title :: string
  card_date :: string
  card_article :: NewsArticle

definition render_article :: "builtins \<Rightarrow> NewsArticle \<Rightarrow> render_error + card" where
  "render_article b article =
     (case when_truthy (urlToImage article) of
        None \<Rightarrow>
          Inr \<lparr> card_image = None,
                card_title = title article,
                card_date = ''Published on: '' @ toLocaleDateString b (publishedAt article),
                card_article = article \<rparr>
      | Some u \<Rightarrow>
          (case encodeURI b u of
             None \<Rightarrow> Inl URIError
           | Some uri \<Rightarrow>
               Inr \<lparr> card_image = Some uri,
                     card_title = title article,
                     card_date = ''Published on: '' @ toLocaleDateString b (publishedAt article),
                     card_article = article \<rparr>))"

text \<open>\<^verbatim>\<open>xs.map(f)\<close> with a callback that may throw: the first exception ends it.\<close>

fun array_map :: "('a \<Rightarrow> 'e + 'b) \<Rightarrow> 'a list \<Rightarrow> 'e + 'b list" where
  "array_map f [] = Inr []"
| "array_map f (x # xs) =
     (case f x of
        Inl e \<Rightarrow> Inl e
      | Inr y \<Rightarrow> (case array_map f xs of Inl e \<Rightarrow> Inl e | Inr ys \<Rightarrow> Inr (y # ys)))"

text \<open>
  \<^verbatim>\<open>Object.keys(newsData).map(category => ... newsData[category].map(...))\<close>
\<close>

definition render_category ::
    "builtins \<Rightarrow> (string \<times> NewsArticle list) list \<Rightarrow> string
       \<Rightarrow> render_error + (string \<times> card list)" where
  "render_category b nd category =
     (case map_of nd category of
        None \<Rightarrow> Inl TypeError
      | Some articles \<Rightarrow>
          (case array_map (render_article b) articles of
             Inl e \<Rightarrow> Inl e
           | Inr cards \<Rightarrow> Inr (category, cards)))"

definition render_categories ::
    "builtins \<Rightarrow> (string \<times> NewsArticle list) list
       \<Rightarrow> render_error + (string \<times> card list) list" where
  "render_categories b nd = array_map (render_category b nd) (map fst nd)"

datatype news_view =
    ActivityIndicator
  | EmptyStateText string
  | Categories "(string \<times> card list) list"

definition Browse_newsContainer :: "builtins \<Rightarrow> Browse \<Rightarrow> render_error + news_view" where
  "Browse_newsContainer b s =
     (if isLoading s then Inr ActivityIndicator
      else if length (selectedCategories s) = 0
        then Inr (EmptyStateText ''Select categories to see news'')
      else if length (map fst (newsData s)) = 0
        then Inr (EmptyStateText ''No news found for selected categories'')
      else (case render_categories b (newsData s) of
              Inl e \<Rightarrow> Inl e
            | Inr drawn \<Rightarrow> Inr (Categories drawn)))"

section \<open>The Trending screen (second file of src/unnamed/part_000)\<close>

record Trending =
  t_userData :: "UserObj option"
  t_newsData :: "(string \<times> NewsArticle list) list"
  t_isLoggedIn :: bool
  t_calls :: "call list"
  t_console :: "string list"
  t_unhandled :: "string list"

definition Trending_mount :: "bool \<Rightarrow> Trending" where
  "Trending_mount ctx_isLoggedIn =
     \<lparr> t_userData = None, t_newsData = [], t_isLoggedIn = ctx_isLoggedIn,
       t_calls = [], t_console = [], t_unhandled = [] \<rparr>"

text \<open>The first effect: again a \<^verbatim>\<open>then\<close> without a \<^verbatim>\<open>catch\<close>.\<close>

definition Trending_mount_effect :: "User option promise \<Rightarrow> Trending \<Rightarrow> Trending" where
  "Trending_mount_effect r s =
     (let s1 = s\<lparr> t_calls := t_calls s @ [GetCurrentUser] \<rparr>
      in case r of
           Rejected e \<Rightarrow> s1\<lparr> t_unhandled := t_unhandled s1 @ [e] \<rparr>
         | Resolved None \<Rightarrow> s1
         | Resolved (Some response) \<Rightarrow>
             s1\<lparr> t_isLoggedIn := True,
                 t_userData := Some \<lparr> name = user_name response, email = user_email response \<rparr> \<rparr>)"

text \<open>
  The loop over \<^verbatim>\<open>Object.entries(response)\<close>, storing the first 20 articles of
  every entry.
\<close>

definition slice_entries ::
    "(string \<times> NewsArticle list) list \<Rightarrow> (string \<times> NewsArticle list) list
       \<Rightarrow> (string \<times> NewsArticle list) list" where
  "slice_entries response categoryData =
     fold (\<lambda>(category, articles) cd. set_member category (take 20 articles) cd)
          response categoryData"

definition Trending_fetchNewsData ::
    "(string \<times> NewsArticle list) list option promise \<Rightarrow> Trending \<Rightarrow> Trending" where
  "Trending_fetchNewsData r s =
     (let s1 = s\<lparr> t_calls := t_calls s @ [GetTrendingNews] \<rparr>
      in case r of
           Rejected e \<Rightarrow> s1\<lparr> t_console := t_console s1 @ [''Failed to fetch news: '' @ e] \<rparr>
         | Resolved response \<Rightarrow>
             s1\<lparr> t_newsData :=
                   (case response of None \<Rightarrow> [] | Some entries \<Rightarrow> slice_entries entries []) \<rparr>)"

definition Trending_newsContainer ::
    "builtins \<Rightarrow> Trending \<Rightarrow> render_error + (string \<times> card list) list" where
  "Trending_newsContainer b s = render_categories b (t_newsData s)"

section \<open>The root component App (first file of src/unnamed/part_000)\<close>

text \<open>
  The state the root component reads and writes: its own \<^verbatim>\<open>isLoading\<close> and
  \<^verbatim>\<open>fontsLoaded\<close> cells, the \<^verbatim>\<open>isLoggedIn\<close> cell of the Appwrite context, and
  the lines written with \<^verbatim>\<open>console.error\<close>.
\<close>

record App =
  app_isLoading :: bool
  app_isLoggedIn :: bool
  fontsLoaded :: bool
  app_console :: "string list"

text \<open>
  Modelled from the spec: the value of \<^verbatim>\<open>isLoggedIn\<close> that the Appwrite context
  holds before any screen has written it. The context is defined in
  \<^verbatim>\<open>./appwrite/appwritecontext\<close>, which is not among the source files; the
  specification names "no user" as the default state of the interface.
\<close>

definition context_isLoggedIn_initial :: bool where
  "context_isLoggedIn_initial = False"

definition App_mount :: "bool \<Rightarrow> App" where
  "App_mount ctx_isLoggedIn =
     \<lparr> app_isLoading = True, app_isLoggedIn = ctx_isLoggedIn,
       fontsLoaded = False, app_console = [] \<rparr>"

text \<open>Lines 14 to 27: the font is loaded, or the failure is written to the console.\<close>

definition loadFonts :: "unit promise \<Rightarrow> App \<Rightarrow> App" where
  "loadFonts r a =
     (case r of
        Resolved _ \<Rightarrow> a\<lparr> fontsLoaded := True \<rparr>
      | Rejected e \<Rightarrow> a\<lparr> app_console := app_console a @ [e] \<rparr>)"

text \<open>Lines 30 to 43: the effect that settles the login state.\<close>

definition App_effect :: "User option promise \<Rightarrow> App \<Rightarrow> App" where
  "App_effect r a =
     (case r of
        Resolved response \<Rightarrow>
          (let a1 = a\<lparr> app_isLoading := False \<rparr>
           in case response of
                Some _ \<Rightarrow> a1\<lparr> app_isLoggedIn := True \<rparr>
              | None \<Rightarrow> a1)
      | Rejected _ \<Rightarrow> a\<lparr> app_isLoading := False, app_isLoggedIn := False \<rparr>)"

text \<open>
  Lines 45 to 55: what the component returns, and the line that render writes with
  \<^verbatim>\<open>console.log\<close>.
\<close>

datatype app_view = Loading | RouteStack string

definition App_render :: "App \<Rightarrow> app_view \<times> string list" where
  "App_render a =
     (if app_isLoading a then (Loading, [])
      else (RouteStack (if app_isLoggedIn a then ''Home'' else ''Login''),
            [if app_isLoggedIn a then ''Navigating to Home'' else ''Navigating to Login'']))"

text \<open>The application from its start until \<^verbatim>\<open>getCurrentUser\<close> has settled.\<close>

definition App_startup :: "User option promise \<Rightarrow> App" where
  "App_startup r = App_effect r (App_mount context_isLoggedIn_initial)"

section \<open>Auxiliary notions and sample inputs\<close>

text \<open>
  \<^verbatim>\<open>getCurrentUser\<close> resolved with a user that passes the test
  \<^verbatim>\<open>user && user.$id\<close>.
\<close>

definition resolves_usable :: "User option promise \<Rightarrow> bool" where
  "resolves_usable r = (case r of Resolved user \<Rightarrow> usable_id user \<noteq> None | Rejected _ \<Rightarrow> False)"


text \<open>
  The turn of the fetch loop for category \<open>c\<close> leaves the loop with an exception: the
  call rejects, or \<open>c\<close> names a member of the prototype that the response does not
  override.
\<close>

definition step_throws :: "news_api \<Rightarrow> string \<Rightarrow> bool" where
  "step_throws api c =
     (case api [c] of
        Rejected _ \<Rightarrow> True
      | Resolved None \<Rightarrow> False
      | Resolved (Some r) \<Rightarrow> get_member r c = Inherited)"

text \<open>The address of the article's image, when it has one, can be encoded.\<close>

definition drawable :: "builtins \<Rightarrow> NewsArticle \<Rightarrow> bool" where
  "drawable b a =
     (case when_truthy (urlToImage a) of None \<Rightarrow> True | Some u \<Rightarrow> encodeURI b u \<noteq> None)"

definition drawable_news :: "builtins \<Rightarrow> (string \<times> NewsArticle list) list \<Rightarrow> bool" where
  "drawable_news b nd \<longleftrightarrow> (\<forall>(k, xs) \<in> set nd. \<forall>a \<in> set xs. drawable b a)"

text \<open>
  The cards show exactly the articles \<open>xs\<close>, one card for each article and in the
  order of \<open>xs\<close>: the article handed to the Detail route, its title, the line with
  its date and, when it has an image, the encoded address.
\<close>

definition draws :: "builtins \<Rightarrow> card list \<Rightarrow> NewsArticle list \<Rightarrow> bool" where
  "draws b cards xs \<longleftrightarrow>
     map card_article cards = xs \<and>
     map card_title cards = map title xs \<and>
     map card_date cards =
       map (\<lambda>a. ''Published on: '' @ toLocaleDateString b (publishedAt a)) xs \<and>
     map card_image cards =
       map (\<lambda>a. case when_truthy (urlToImage a) of None \<Rightarrow> None | Some u \<Rightarrow> encodeURI b u) xs"

text \<open>The calls that fetch news for the Browse screen.\<close>

fun is_fetch :: "call \<Rightarrow> bool" where
  "is_fetch (GetCategoryNews _) = True"
| "is_fetch _ = False"

text \<open>
  Sample inputs: a logged-in user, the document the service creates for that user, a service
  that answers every call, and services that fail in one place.
\<close>

definition alice :: User where
  "alice = \<lparr> user_id = Some ''u1'', user_name = ''Alice'', user_email = ''alice@example.org'' \<rparr>"

definition doc1 :: Document where
  "doc1 = \<lparr> doc_id = Some ''doc1'', interested_categories = [''Social Events''] \<rparr>"

definition env_created :: save_env where
  "env_created =
     \<lparr> getCurrentUser_reply = Resolved (Some alice),
       createpreferences_reply = \<lparr> shown = [], outcome = Resolved (Some doc1) \<rparr>,
       savepreferences_reply = \<lparr> shown = [], outcome = Resolved (Some doc1) \<rparr> \<rparr>"

definition env_no_user :: save_env where
  "env_no_user = env_created\<lparr> getCurrentUser_reply := Resolved None \<rparr>"


definition env_create_undefined :: save_env where
  "env_create_undefined =
     env_created\<lparr> createpreferences_reply :=
                   \<lparr> shown = [''Document could not be created''], outcome = Resolved None \<rparr> \<rparr>"

definition article1 :: NewsArticle where
  "article1 =
     \<lparr> url = ''https://example.org/a'', title = ''A'', author = None, content = None,
       urlToImage = Some ''https://example.org/a.png'', description = ''d'',
       publishedAt = ''2024-05-01T10:00:00Z'', source = None \<rparr>"

text \<open>
  Sample built-ins: an address without characters to escape is encoded as itself, and
  the date is shown as the first ten characters of the timestamp.
\<close>

definition sample_builtins :: builtins where
  "sample_builtins = \<lparr> encodeURI = (\<lambda>u. Some u), toLocaleDateString = take 10 \<rparr>"

definition api_ok :: news_api where
  "api_ok cats = Resolved (Some (map (\<lambda>c. (c, replicate 25 article1)) cats))"


definition after_toggle :: Browse where
  "after_toggle = toggleCategory ''Social Events'' env_created (Browse_mount True)"

definition with_news :: Browse where
  "with_news = fetchNewsData api_ok after_toggle"

definition env_prefs_rejected :: load_env where
  "env_prefs_rejected =
     \<lparr> load_getCurrentUser_reply = Resolved (Some alice),
       getpreferences_reply = \<lparr> shown = [], outcome = Rejected ''Network request failed'' \<rparr> \<rparr>"

definition env_prefs_absent :: load_env where
  "env_prefs_absent =
     \<lparr> load_getCurrentUser_reply = Resolved (Some alice),
       getpreferences_reply = \<lparr> shown = [], outcome = Resolved None \<rparr> \<rparr>"

definition env_load_user_rejected :: load_env where
  "env_load_user_rejected =
     env_prefs_absent\<lparr> load_getCurrentUser_reply := Rejected ''Network request failed'' \<rparr>"

section \<open>Basic facts about the model\<close>

text \<open>Running the callbacks leaves the snackbar showing the last message.\<close>

lemma callbacks_eq:
  "callbacks msgs s =
     (if msgs = [] then s else s\<lparr> snackbarMessage := last msgs, snackbarVisible := True \<rparr>)"
  unfolding callbacks_def
  by (induction msgs arbitrary: s) (simp_all add: showSnackbar_def)

lemmas step_defs = showSnackbar_def issue_def console_log_def catch_save_def callbacks_eq

lemma create_branch_calls:
  "calls (create_branch userId env categories s) = calls s @ [CreatePreferences userId categories]"
  by (simp add: create_branch_def step_defs Let_def split: promise.split option.split)

lemma save_branch_calls:
  "calls (save_branch docid userId env categories s) = calls s @ [SavePreferences docid userId categories]"
  by (simp add: save_branch_def step_defs Let_def split: promise.split option.split)

lemma toggleCategory_calls:
  "calls (toggleCategory category env s) =
     calls s @ GetCurrentUser #
       (case getCurrentUser_reply env of
          Rejected _ \<Rightarrow> []
        | Resolved user \<Rightarrow>
            (case usable_id user of
               None \<Rightarrow> []
             | Some userId \<Rightarrow>
                 [CreatePreferences userId (updatedCategories (selectedCategories s) category)]))"
  by (simp add: toggleCategory_def saveCategoriesToDatabase_def initial_documentId_def
        when_truthy_def create_branch_calls step_defs Let_def split: promise.split option.split)

lemma toggleCategory_selected:
  "selectedCategories (toggleCategory category env s) = updatedCategories (selectedCategories s) category"
  by (simp add: toggleCategory_def saveCategoriesToDatabase_def initial_documentId_def
        when_truthy_def create_branch_def step_defs Let_def split: promise.split option.split)

lemma toggles_no_save: "filter is_save (calls (toggles presses s)) = filter is_save (calls s)"
  by (induction presses arbitrary: s)
     (auto simp: toggleCategory_calls split: promise.split option.split)

lemmas save_defs = saveCategoriesToDatabase_def create_branch_def save_branch_def step_defs Let_def
lemmas load_defs = loadSavedCategories_def catch_load_def step_defs Let_def








lemma toggleCategory_frame:
  "newsData (toggleCategory category env s) = newsData s"
  "isLoading (toggleCategory category env s) = isLoading s"
  by (simp_all add: toggleCategory_def save_defs initial_documentId_def when_truthy_def
        split: promise.split option.split)

subsection \<open>Objects as records\<close>

lemma set_member_cases:
  "(c, xs) \<in> set (set_member k v al) \<Longrightarrow> (c, xs) = (k, v) \<or> (c, xs) \<in> set al"
  unfolding set_member_def
  by (induction al) (auto split: if_splits)

lemma set_member_lookup:
  "map_of (set_member k v al) c =
     (if c = k \<and> k \<noteq> ''__proto__'' then Some v else map_of al c)"
  by (simp add: set_member_def update_conv')

lemma set_member_distinct:
  "distinct (map fst al) \<Longrightarrow> distinct (map fst (set_member k v al))"
  by (simp add: set_member_def distinct_update)

lemma get_member_own: "map_of obj k = Some v \<Longrightarrow> get_member obj k = Own v"
  by (simp add: get_member_def)

subsection \<open>The fetch loops\<close>

lemma fetch_loop_throws:
  "\<exists>c \<in> set cats. step_throws api c \<Longrightarrow>
     \<exists>e s'. fetch_loop api cats cd s = (Inl e, s')"
proof (induction cats arbitrary: cd s)
  case Nil
  then show ?case by simp
next
  case (Cons a cats)
  show ?case
  proof (cases "step_throws api a")
    case True
    then show ?thesis
      by (auto simp: step_throws_def split: promise.splits option.splits member.splits)
  next
    case False
    with Cons.prems have later: "\<exists>c \<in> set cats. step_throws api c" by auto
    show ?thesis using False Cons.IH [OF later]
      by (auto simp: step_throws_def split: promise.splits option.splits member.splits)
  qed
qed

lemma fetch_loop_completes:
  "\<not> (\<exists>c \<in> set cats. step_throws api c) \<Longrightarrow>
     \<exists>cd' s'. fetch_loop api cats cd s = (Inr cd', s')"
proof (induction cats arbitrary: cd s)
  case Nil
  then show ?case by simp
next
  case (Cons a cats)
  then have here: "\<not> step_throws api a" and later: "\<not> (\<exists>c \<in> set cats. step_throws api c)"
    by auto
  show ?case using here Cons.IH [OF later]
    by (auto simp: step_throws_def split: promise.splits option.splits member.splits)
qed

text \<open>
  One turn of a loop that completes hands some record and state to the remaining
  turns; \<open>P\<close> is any property of records kept by storing a slice.
\<close>

lemma fetch_loop_turn:
  assumes "fetch_loop api (a # cats) cd s = (Inr cd', s')"
  shows "\<exists>cd0 s0. fetch_loop api cats cd0 s0 = (Inr cd', s') \<and>
           (cd0 = cd \<or> (\<exists>r articles. api [a] = Resolved (Some r) \<and>
              get_member r a = Own articles \<and> cd0 = set_member a (take 20 articles) cd))"
  using assms
  by (auto split: promise.splits option.splits member.splits)

lemma fetch_loop_lookup:
  assumes "fetch_loop api cats cd s = (Inr cd', s')"
    and "api [category] = Resolved (Some r)" and "map_of r category = Some articles"
    and "category \<noteq> ''__proto__''"
  shows "map_of cd' category =
           (if category \<in> set cats then Some (take 20 articles) else map_of cd category)"
  using assms
proof (induction cats arbitrary: cd s)
  case Nil
  then show ?case by simp
next
  case (Cons a cats)
  from fetch_loop_turn [OF Cons.prems(1)] obtain cd0 s0 where
    l: "fetch_loop api cats cd0 s0 = (Inr cd', s')"
    and c: "cd0 = cd \<or> (\<exists>r articles. api [a] = Resolved (Some r) \<and>
              get_member r a = Own articles \<and> cd0 = set_member a (take 20 articles) cd)"
    by blast
  note ih = Cons.IH [OF l Cons.prems(2,3,4)]
  show ?case
  proof (cases "a = category")
    case True
    have own: "get_member r category = Own articles"
      by (rule get_member_own) (rule Cons.prems(3))
    with Cons.prems(1,2) True have
      "fetch_loop api cats (set_member category (take 20 articles) cd)
         (issue (GetCategoryNews [category]) s) = (Inr cd', s')"
      by simp
    from Cons.IH [OF this Cons.prems(2,3,4)] True Cons.prems(4) show ?thesis
      by (simp add: set_member_lookup)
  next
    case False
    from c False have "map_of cd0 category = map_of cd category"
      by (auto simp: set_member_lookup)
    with ih False show ?thesis by simp
  qed
qed

lemma fetch_loop_proto:
  "fetch_loop api cats cd s = (Inr cd', s') \<Longrightarrow>
     map_of cd' ''__proto__'' = map_of cd ''__proto__''"
proof (induction cats arbitrary: cd s)
  case Nil
  then show ?case by simp
next
  case (Cons a cats)
  from fetch_loop_turn [OF Cons.prems] obtain cd0 s0 where
    l: "fetch_loop api cats cd0 s0 = (Inr cd', s')"
    and c: "cd0 = cd \<or> (\<exists>r articles. api [a] = Resolved (Some r) \<and>
              get_member r a = Own articles \<and> cd0 = set_member a (take 20 articles) cd)"
    by blast
  from c have "map_of cd0 ''__proto__'' = map_of cd ''__proto__''"
    by (auto simp: set_member_lookup)
  with Cons.IH [OF l] show ?case by simp
qed

lemma fetch_loop_distinct:
  "fetch_loop api cats cd s = (Inr cd', s') \<Longrightarrow> distinct (map fst cd) \<Longrightarrow>
     distinct (map fst cd')"
proof (induction cats arbitrary: cd s)
  case Nil
  then show ?case by simp
next
  case (Cons a cats)
  from fetch_loop_turn [OF Cons.prems(1)] obtain cd0 s0 where
    l: "fetch_loop api cats cd0 s0 = (Inr cd', s')"
    and c: "cd0 = cd \<or> (\<exists>r articles. api [a] = Resolved (Some r) \<and>
              get_member r a = Own articles \<and> cd0 = set_member a (take 20 articles) cd)"
    by blast
  from c Cons.prems(2) have "distinct (map fst cd0)"
    by (auto simp: set_member_distinct)
  with Cons.IH [OF l] show ?case by simp
qed

lemma fetch_loop_bound:
  assumes "fetch_loop api cats cd s = (Inr cd', s')"
    and "\<forall>(c, xs) \<in> set cd. length xs \<le> 20"
  shows "\<forall>(c, xs) \<in> set cd'. length xs \<le> 20"
  using assms
proof (induction cats arbitrary: cd s)
  case Nil
  then show ?case by simp
next
  case (Cons a cats)
  from fetch_loop_turn [OF Cons.prems(1)] obtain cd0 s0 where
    l: "fetch_loop api cats cd0 s0 = (Inr cd', s')"
    and c: "cd0 = cd \<or> (\<exists>r articles. api [a] = Resolved (Some r) \<and>
              get_member r a = Own articles \<and> cd0 = set_member a (take 20 articles) cd)"
    by blast
  from c Cons.prems(2) have "\<forall>(c, xs) \<in> set cd0. length xs \<le> 20"
    by (auto dest!: set_member_cases)
  with Cons.IH [OF l] show ?case by simp
qed

lemma fetch_loop_cells:
  "fetch_loop api cats cd s = (r, s') \<Longrightarrow> \<exists>cs. s' = s\<lparr> calls := cs \<rparr>"
proof (induction cats arbitrary: cd s)
  case Nil
  then have "s' = s\<lparr> calls := calls s \<rparr>" by simp
  then show ?case by blast
next
  case (Cons a cats)
  let ?s1 = "issue (GetCategoryNews [a]) s"
  have "s' = ?s1 \<or> (\<exists>cd0. fetch_loop api cats cd0 ?s1 = (r, s'))"
    using Cons.prems by (auto split: promise.splits option.splits member.splits)
  then have "\<exists>cs. s' = ?s1\<lparr> calls := cs \<rparr>"
  proof
    assume "s' = ?s1"
    then have "s' = ?s1\<lparr> calls := calls ?s1 \<rparr>" by simp
    then show ?thesis by blast
  next
    assume "\<exists>cd0. fetch_loop api cats cd0 ?s1 = (r, s')"
    then show ?thesis using Cons.IH by blast
  qed
  then show ?case by (auto simp: issue_def)
qed

lemma slice_entries_lookup:
  "distinct (map fst entries) \<Longrightarrow>
     map_of (slice_entries entries cd) c =
       (case map_of entries c of
          Some a \<Rightarrow> if c = ''__proto__'' then map_of cd c else Some (take 20 a)
        | None \<Rightarrow> map_of cd c)"
  unfolding slice_entries_def
proof (induction entries arbitrary: cd)
  case Nil
  then show ?case by simp
next
  case (Cons e entries)
  obtain k v where e: "e = (k, v)" by (cases e)
  from Cons.prems e have d: "distinct (map fst entries)" and k: "map_of entries k = None"
    by (auto simp: map_of_eq_None_iff)
  show ?case using Cons.IH [OF d, of "set_member k (take 20 v) cd"] e k
    by (auto simp: set_member_lookup split: option.split)
qed

lemma slice_entries_bound:
  "\<forall>(c, xs) \<in> set cd. length xs \<le> 20 \<Longrightarrow>
     \<forall>(c, xs) \<in> set (slice_entries entries cd). length xs \<le> 20"
  unfolding slice_entries_def
proof (induction entries arbitrary: cd)
  case Nil
  then show ?case by simp
next
  case (Cons e entries)
  obtain k v where e: "e = (k, v)" by (cases e)
  have "\<forall>(c, xs) \<in> set (set_member k (take 20 v) cd). length xs \<le> 20"
    using Cons.prems by (auto dest!: set_member_cases)
  from Cons.IH [OF this] e show ?case by simp
qed

lemma slice_entries_distinct:
  "distinct (map fst cd) \<Longrightarrow> distinct (map fst (slice_entries entries cd))"
  unfolding slice_entries_def
proof (induction entries arbitrary: cd)
  case Nil
  then show ?case by simp
next
  case (Cons e entries)
  obtain k v where e: "e = (k, v)" by (cases e)
  from Cons.prems have "distinct (map fst (set_member k (take 20 v) cd))"
    by (rule set_member_distinct)
  from Cons.IH [OF this] e show ?case by simp
qed

subsection \<open>The outcome of fetchNewsData\<close>

lemma fetchNewsData_completed:
  assumes "\<not> (\<exists>c \<in> set (selectedCategories s). step_throws api c)"
  shows "\<exists>cd' s'. fetch_loop api (selectedCategories s) []
                    (s\<lparr> isLoading := True, error := None \<rparr>) = (Inr cd', s')
           \<and> newsData (fetchNewsData api s) = cd'"
    and "\<not> isLoading (fetchNewsData api s)"
    and "selectedCategories (fetchNewsData api s) = selectedCategories s"
proof -
  let ?s1 = "s\<lparr> isLoading := True, error := None \<rparr>"
  from fetch_loop_completes [OF assms] obtain cd' s' where
    l: "fetch_loop api (selectedCategories s) [] ?s1 = (Inr cd', s')" by blast
  have f: "fetchNewsData api s = s'\<lparr> newsData := cd', isLoading := False \<rparr>"
    using l by (simp add: fetchNewsData_def)
  show "\<exists>cd' s'. fetch_loop api (selectedCategories s) [] ?s1 = (Inr cd', s')
        \<and> newsData (fetchNewsData api s) = cd'"
    using l by (simp add: f)
  show "\<not> isLoading (fetchNewsData api s)" by (simp add: f)
  from fetch_loop_cells [OF l] obtain cs where "s' = ?s1\<lparr> calls := cs \<rparr>" by blast
  then have "selectedCategories s' = selectedCategories ?s1" by simp
  then show "selectedCategories (fetchNewsData api s) = selectedCategories s"
    by (simp add: f)
qed

lemma fetchNewsData_thrown:
  assumes "\<exists>c \<in> set (selectedCategories s). step_throws api c"
  shows "console (fetchNewsData api s) = console s"
    and "unhandled (fetchNewsData api s) = unhandled s"
    and "newsData (fetchNewsData api s) = newsData s"
    and "error (fetchNewsData api s) = Some ''Failed to fetch news''"
    and "snackbarVisible (fetchNewsData api s)"
    and "snackbarMessage (fetchNewsData api s) = ''Error loading news''"
    and "\<not> isLoading (fetchNewsData api s)"
proof -
  let ?s1 = "s\<lparr> isLoading := True, error := None \<rparr>"
  from fetch_loop_throws [OF assms] obtain e' s' where
    l: "fetch_loop api (selectedCategories s) [] ?s1 = (Inl e', s')" by blast
  from fetch_loop_cells [OF l] obtain cs where c: "s' = ?s1\<lparr> calls := cs \<rparr>" by blast
  have f: "fetchNewsData api s =
             (showSnackbar ''Error loading news''
                (s'\<lparr> error := Some ''Failed to fetch news'' \<rparr>))\<lparr> isLoading := False \<rparr>"
    using l by (simp add: fetchNewsData_def)
  show "console (fetchNewsData api s) = console s"
    and "unhandled (fetchNewsData api s) = unhandled s"
    and "newsData (fetchNewsData api s) = newsData s"
    and "error (fetchNewsData api s) = Some ''Failed to fetch news''"
    and "snackbarVisible (fetchNewsData api s)"
    and "snackbarMessage (fetchNewsData api s) = ''Error loading news''"
    and "\<not> isLoading (fetchNewsData api s)"
    by (simp_all add: f c showSnackbar_def)
qed


lemma fetchNewsData_stores:
  assumes no: "\<not> (\<exists>c \<in> set (selectedCategories s). step_throws api c)"
    and sel: "category \<in> set (selectedCategories s)"
    and r: "api [category] = Resolved (Some response)"
    and a: "map_of response category = Some articles"
  shows "category \<noteq> ''__proto__'' \<Longrightarrow>
           map_of (newsData (fetchNewsData api s)) category = Some (take 20 articles)"
    and "map_of (newsData (fetchNewsData api s)) ''__proto__'' = None"
    and "distinct (map fst (newsData (fetchNewsData api s)))"
proof -
  let ?s1 = "s\<lparr> isLoading := True, error := None \<rparr>"
  from fetchNewsData_completed(1) [OF no] obtain cd' s' where
    l: "fetch_loop api (selectedCategories s) [] ?s1 = (Inr cd', s')"
    and n: "newsData (fetchNewsData api s) = cd'" by blast
  show "map_of (newsData (fetchNewsData api s)) category = Some (take 20 articles)"
    if "category \<noteq> ''__proto__''"
    using fetch_loop_lookup [OF l r a that] sel by (simp add: n)
  show "map_of (newsData (fetchNewsData api s)) ''__proto__'' = None"
    using fetch_loop_proto [OF l] by (simp add: n)
  show "distinct (map fst (newsData (fetchNewsData api s)))"
    using fetch_loop_distinct [OF l] by (simp add: n)
qed

lemma fetchNewsData_bound:
  "\<forall>(c, xs) \<in> set (newsData (fetchNewsData api s)).
     length xs \<le> 20 \<or> (c, xs) \<in> set (newsData s)"
proof (cases "\<exists>c \<in> set (selectedCategories s). step_throws api c")
  case True
  from fetchNewsData_thrown(3) [OF True] show ?thesis by auto
next
  case False
  let ?s1 = "s\<lparr> isLoading := True, error := None \<rparr>"
  from fetchNewsData_completed(1) [OF False] obtain cd' s' where
    l: "fetch_loop api (selectedCategories s) [] ?s1 = (Inr cd', s')"
    and n: "newsData (fetchNewsData api s) = cd'" by blast
  from fetch_loop_bound [OF l] have "\<forall>(c, xs) \<in> set cd'. length xs \<le> 20" by simp
  then show ?thesis by (auto simp: n)
qed

subsection \<open>Drawing the stored articles\<close>

lemma render_article_drawable:
  "drawable b a \<Longrightarrow>
     \<exists>c. render_article b a = Inr c \<and> card_article c = a \<and> card_title c = title a \<and>
         card_date c = ''Published on: '' @ toLocaleDateString b (publishedAt a) \<and>
         card_image c =
           (case when_truthy (urlToImage a) of None \<Rightarrow> None | Some u \<Rightarrow> encodeURI b u)"
  by (auto simp: render_article_def drawable_def split: option.splits)

lemma render_article_not_drawable:
  "\<not> drawable b a \<Longrightarrow> render_article b a = Inl URIError"
  by (auto simp: render_article_def drawable_def split: option.splits)

lemma array_map_render_article:
  "\<forall>a \<in> set xs. drawable b a \<Longrightarrow>
     \<exists>cards. array_map (render_article b) xs = Inr cards \<and> draws b cards xs"
proof (induction xs)
  case Nil
  then show ?case by (simp add: draws_def)
next
  case (Cons a xs)
  then have "drawable b a" and rest: "\<forall>a \<in> set xs. drawable b a" by auto
  from render_article_drawable [OF this(1)] obtain c where
    c: "render_article b a = Inr c" "card_article c = a" "card_title c = title a"
       "card_date c = ''Published on: '' @ toLocaleDateString b (publishedAt a)"
       "card_image c =
          (case when_truthy (urlToImage a) of None \<Rightarrow> None | Some u \<Rightarrow> encodeURI b u)"
    by blast
  from Cons.IH [OF rest] obtain cards where
    cs: "array_map (render_article b) xs = Inr cards" "draws b cards xs" by blast
  have "array_map (render_article b) (a # xs) = Inr (c # cards)"
    by (simp add: c(1) cs(1))
  moreover have "draws b (c # cards) (a # xs)"
    using cs(2) c(2-5) by (simp add: draws_def)
  ultimately show ?case by blast
qed

lemma array_map_render_article_throws:
  "\<not> (\<forall>a \<in> set xs. drawable b a) \<Longrightarrow> array_map (render_article b) xs = Inl URIError"
proof (induction xs)
  case Nil
  then show ?case by simp
next
  case (Cons a xs)
  show ?case
  proof (cases "drawable b a")
    case False
    then show ?thesis by (simp add: render_article_not_drawable)
  next
    case True
    with Cons.prems have "\<not> (\<forall>a \<in> set xs. drawable b a)" by simp
    from Cons.IH [OF this] render_article_drawable [OF True] show ?thesis by auto
  qed
qed

lemma render_keys_drawable:
  assumes "\<forall>k \<in> set ks. \<exists>xs. map_of nd k = Some xs \<and> (\<forall>a \<in> set xs. drawable b a)"
  shows "\<exists>drawn. array_map (render_category b nd) ks = Inr drawn \<and>
           (\<forall>k \<in> set ks. \<forall>xs. map_of nd k = Some xs \<longrightarrow>
              (\<exists>cards. map_of drawn k = Some cards \<and> draws b cards xs))"
  using assms
proof (induction ks)
  case Nil
  then show ?case by simp
next
  case (Cons k ks)
  then obtain xs where xs: "map_of nd k = Some xs" "\<forall>a \<in> set xs. drawable b a" by auto
  from array_map_render_article [OF xs(2)] obtain cards where
    cards: "array_map (render_article b) xs = Inr cards" "draws b cards xs" by blast
  have rk: "render_category b nd k = Inr (k, cards)"
    by (simp add: render_category_def xs(1) cards(1))
  from Cons.prems have "\<forall>k \<in> set ks. \<exists>xs. map_of nd k = Some xs \<and> (\<forall>a \<in> set xs. drawable b a)"
    by simp
  from Cons.IH [OF this] obtain drawn where
    drawn: "array_map (render_category b nd) ks = Inr drawn"
      "\<forall>k \<in> set ks. \<forall>xs. map_of nd k = Some xs \<longrightarrow>
          (\<exists>cards. map_of drawn k = Some cards \<and> draws b cards xs)"
    by blast
  have "array_map (render_category b nd) (k # ks) = Inr ((k, cards) # drawn)"
    by (simp add: rk drawn(1))
  moreover have "\<forall>k' \<in> set (k # ks). \<forall>xs. map_of nd k' = Some xs \<longrightarrow>
          (\<exists>cs. map_of ((k, cards) # drawn) k' = Some cs \<and> draws b cs xs)"
    using drawn(2) xs(1) cards(2) by auto
  ultimately show ?case by blast
qed

lemma render_keys_throw:
  assumes "\<forall>k \<in> set ks. map_of nd k \<noteq> None"
    and "\<exists>k \<in> set ks. \<exists>xs. map_of nd k = Some xs \<and> \<not> (\<forall>a \<in> set xs. drawable b a)"
  shows "array_map (render_category b nd) ks = Inl URIError"
  using assms
proof (induction ks)
  case Nil
  then show ?case by simp
next
  case (Cons k ks)
  then obtain xs where xs: "map_of nd k = Some xs" by auto
  show ?case
  proof (cases "\<forall>a \<in> set xs. drawable b a")
    case False
    from array_map_render_article_throws [OF this] show ?thesis
      by (simp add: render_category_def xs)
  next
    case True
    from array_map_render_article [OF True] obtain cards where
      "array_map (render_article b) xs = Inr cards" by blast
    then have rk: "render_category b nd k = Inr (k, cards)"
      by (simp add: render_category_def xs)
    from Cons.prems True xs have
      "\<exists>k \<in> set ks. \<exists>xs. map_of nd k = Some xs \<and> \<not> (\<forall>a \<in> set xs. drawable b a)"
      by auto
    moreover from Cons.prems(1) have "\<forall>k \<in> set ks. map_of nd k \<noteq> None" by simp
    ultimately have "array_map (render_category b nd) ks = Inl URIError"
      using Cons.IH by blast
    then show ?thesis by (simp add: rk)
  qed
qed

lemma render_categories_drawable:
  assumes "drawable_news b nd"
  shows "\<exists>drawn. render_categories b nd = Inr drawn \<and>
           (\<forall>k xs. map_of nd k = Some xs \<longrightarrow>
              (\<exists>cards. map_of drawn k = Some cards \<and> draws b cards xs))"
proof -
  have "\<forall>k \<in> set (map fst nd). \<exists>xs. map_of nd k = Some xs \<and> (\<forall>a \<in> set xs. drawable b a)"
  proof
    fix k assume "k \<in> set (map fst nd)"
    then obtain xs where xs: "map_of nd k = Some xs"
      by (metis map_of_eq_None_iff not_Some_eq set_map)
    then have "(k, xs) \<in> set nd" by (rule map_of_SomeD)
    with assms have "\<forall>a \<in> set xs. drawable b a" by (auto simp: drawable_news_def)
    with xs show "\<exists>xs. map_of nd k = Some xs \<and> (\<forall>a \<in> set xs. drawable b a)" by blast
  qed
  from render_keys_drawable [OF this] obtain drawn where
    d: "array_map (render_category b nd) (map fst nd) = Inr drawn"
       "\<forall>k \<in> set (map fst nd). \<forall>xs. map_of nd k = Some xs \<longrightarrow>
          (\<exists>cards. map_of drawn k = Some cards \<and> draws b cards xs)"
    by blast
  have "\<forall>k xs. map_of nd k = Some xs \<longrightarrow>
          (\<exists>cards. map_of drawn k = Some cards \<and> draws b cards xs)"
  proof (intro allI impI)
    fix k xs assume m: "map_of nd k = Some xs"
    then have "k \<in> set (map fst nd)"
      by (metis map_of_eq_None_iff option.distinct(1) set_map)
    with d(2) m show "\<exists>cards. map_of drawn k = Some cards \<and> draws b cards xs" by blast
  qed
  with d(1) show ?thesis by (auto simp: render_categories_def)
qed

lemma render_categories_throws:
  assumes "distinct (map fst nd)" and "\<not> drawable_news b nd"
  shows "render_categories b nd = Inl URIError"
proof -
  from assms(2) obtain k xs where in_nd: "(k, xs) \<in> set nd"
    and bad: "\<not> (\<forall>a \<in> set xs. drawable b a)"
    by (auto simp: drawable_news_def)
  from assms(1) in_nd have "map_of nd k = Some xs" by simp
  moreover from in_nd have "k \<in> set (map fst nd)" by force
  ultimately have 2:
    "\<exists>k \<in> set (map fst nd). \<exists>xs. map_of nd k = Some xs \<and> \<not> (\<forall>a \<in> set xs. drawable b a)"
    using bad by blast
  have 1: "\<forall>k \<in> set (map fst nd). map_of nd k \<noteq> None"
    by (simp add: map_of_eq_None_iff)
  from render_keys_throw [OF 1 2] show ?thesis by (simp add: render_categories_def)
qed

subsection \<open>The sample states\<close>

lemma after_toggle_eq:
  "after_toggle =
     (Browse_mount True)\<lparr> selectedCategories := [''Social Events''],
        calls := [GetCurrentUser, CreatePreferences ''u1'' [''Social Events'']],
        documentId := Some ''doc1'',
        snackbarMessage := ''Preferences updated successfully'', snackbarVisible := True \<rparr>"
  by (simp add: after_toggle_def toggleCategory_def save_defs initial_documentId_def
        when_truthy_def env_created_def alice_def doc1_def Browse_mount_def updatedCategories_def)

lemma with_news_eq:
  "with_news = after_toggle\<lparr> newsData := [(''Social Events'', replicate 20 article1)],
       calls := calls after_toggle @ [GetCategoryNews [''Social Events'']] \<rparr>"
  by (simp add: with_news_def fetchNewsData_def after_toggle_eq api_ok_def issue_def
        Browse_mount_def get_member_def set_member_def)

section \<open>Properties of the preference flow\<close>

text \<open>
  C1: for every user at most one preference document is created by the client; after
  the first successful create call has returned a document, the cached document id is
  used and no later toggle issues a second create call.

  The code does not do this. A logged-in user toggles two categories; the first create
  call returns the document \<open>doc1\<close>, whose id is stored in the \<^verbatim>\<open>documentId\<close>
  cell; the second toggle still issues a create call, because the callback kept by
  \<^verbatim>\<open>useCallback(..., [])\<close> reads the \<^verbatim>\<open>documentId\<close> of the first render.
\<close>

theorem toggle_creates_second_document:
  "(let s1 = toggleCategory ''Social Events'' env_created (Browse_mount True);
        s2 = toggleCategory ''Political Events'' env_created s1
    in documentId s1 = Some ''doc1'' \<and>
       filter is_create (calls s2) =
         [CreatePreferences ''u1'' [''Social Events''],
          CreatePreferences ''u1'' [''Social Events'', ''Political Events'']])"
  by (simp add: toggleCategory_def save_defs initial_documentId_def when_truthy_def
        env_created_def alice_def doc1_def Browse_mount_def updatedCategories_def)

text \<open>
  C2: for a logged-in user without a preference document the first toggle issues a
  create call, and every later toggle issues a save call that passes the document id
  returned by that create call.

  The first half holds; the second does not. Three toggles of a logged-in user issue
  three create calls and no save call.
\<close>

theorem subsequent_toggles_issue_create:
  "calls (toggles [(''Social Events'', env_created), (''Political Events'', env_created),
                   (''Social Events'', env_created)] (Browse_mount True)) =
     [GetCurrentUser, CreatePreferences ''u1'' [''Social Events''],
      GetCurrentUser, CreatePreferences ''u1'' [''Social Events'', ''Political Events''],
      GetCurrentUser, CreatePreferences ''u1'' [''Political Events'']]"
  by (simp add: toggleCategory_calls toggleCategory_selected env_created_def alice_def
        when_truthy_def Browse_mount_def updatedCategories_def)

text \<open>
  C3: a toggle removes the category from the selected list when it is a member and
  appends it otherwise, and it issues exactly one persistence call when
  \<^verbatim>\<open>getCurrentUser\<close> resolves with a user that has a non-empty id, and none
  otherwise. The calls issued before the toggle stay a prefix of the trace.
\<close>

theorem toggleCategory_updates_and_persists:
  "selectedCategories (toggleCategory category env s) =
     (if category \<in> set (selectedCategories s)
      then filter (\<lambda>c. c \<noteq> category) (selectedCategories s)
      else selectedCategories s @ [category])
   \<and> take (length (calls s)) (calls (toggleCategory category env s)) = calls s
   \<and> length (persistence_calls (drop (length (calls s)) (calls (toggleCategory category env s)))) =
       (if resolves_usable (getCurrentUser_reply env) then 1 else 0)"
  by (simp add: toggleCategory_calls toggleCategory_selected updatedCategories_def
        persistence_calls_def resolves_usable_def split: promise.split option.split)

text \<open>The theorem at a toggle of a logged-in user, and at one that deselects.\<close>

theorem toggleCategory_updates_and_persists_witness:
  "selectedCategories (toggleCategory ''Social Events'' env_created (Browse_mount True))
     = [''Social Events'']
   \<and> length (persistence_calls (drop (length (calls (Browse_mount True)))
        (calls (toggleCategory ''Social Events'' env_created (Browse_mount True))))) = 1
   \<and> selectedCategories (toggleCategory ''Social Events'' env_no_user after_toggle) = []
   \<and> length (persistence_calls (drop (length (calls after_toggle))
        (calls (toggleCategory ''Social Events'' env_no_user after_toggle)))) = 0"
proof -
  have u: "resolves_usable (getCurrentUser_reply env_created)"
    by (simp add: resolves_usable_def env_created_def alice_def when_truthy_def)
  have n: "\<not> resolves_usable (getCurrentUser_reply env_no_user)"
    by (simp add: resolves_usable_def env_no_user_def env_created_def)
  have m: "''Social Events'' \<notin> set (selectedCategories (Browse_mount True))"
    by (simp add: Browse_mount_def)
  have a: "selectedCategories after_toggle = [''Social Events'']"
    by (simp add: after_toggle_eq)
  from toggleCategory_updates_and_persists
         [of "''Social Events''" env_created "Browse_mount True"] u m
  have 1: "selectedCategories (toggleCategory ''Social Events'' env_created (Browse_mount True))
             = [''Social Events'']
           \<and> length (persistence_calls (drop (length (calls (Browse_mount True)))
               (calls (toggleCategory ''Social Events'' env_created (Browse_mount True))))) = 1"
    by (simp add: Browse_mount_def)
  from toggleCategory_updates_and_persists
         [of "''Social Events''" env_no_user after_toggle] n a
  have 2: "selectedCategories (toggleCategory ''Social Events'' env_no_user after_toggle) = []
           \<and> length (persistence_calls (drop (length (calls after_toggle))
               (calls (toggleCategory ''Social Events'' env_no_user after_toggle)))) = 0"
    by simp
  from 1 2 show ?thesis by blast
qed

text \<open>
  As stated, with exactly one persistence call for each toggle, the property fails:
  when \<^verbatim>\<open>getCurrentUser\<close> resolves with no user the selection changes and the trace
  holds no persistence call.
\<close>

theorem toggle_without_user_persists_nothing:
  "selectedCategories (toggleCategory ''Social Events'' env_no_user (Browse_mount False))
     = [''Social Events'']
   \<and> persistence_calls (calls (toggleCategory ''Social Events'' env_no_user (Browse_mount False)))
     = []"
  by (simp add: toggleCategory_calls toggleCategory_selected env_created_def env_no_user_def
        Browse_mount_def updatedCategories_def persistence_calls_def)

text \<open>
  C9: when \<^verbatim>\<open>getCurrentUser\<close> resolves without a usable user (none, or one whose id
  is missing or empty) during a save, the toggle changes the selected list and records
  the \<^verbatim>\<open>getCurrentUser\<close> call, and nothing else: no create or save call, no
  snackbar, no console line.
\<close>

theorem toggle_without_usable_user:
  assumes "getCurrentUser_reply env = Resolved user" and "usable_id user = None"
  shows "toggleCategory category env s =
           s\<lparr> selectedCategories := updatedCategories (selectedCategories s) category,
              calls := calls s @ [GetCurrentUser] \<rparr>
         \<and> persistence_calls (calls (toggleCategory category env s)) = persistence_calls (calls s)
         \<and> snackbarVisible (toggleCategory category env s) = snackbarVisible s
         \<and> snackbarMessage (toggleCategory category env s) = snackbarMessage s
         \<and> console (toggleCategory category env s) = console s"
  using assms
  by (simp add: toggleCategory_def saveCategoriesToDatabase_def step_defs persistence_calls_def)

theorem toggle_without_usable_user_witness:
  "toggleCategory ''Social Events'' env_no_user (Browse_mount True) =
     (Browse_mount True)\<lparr> selectedCategories := [''Social Events''], calls := [GetCurrentUser] \<rparr>
   \<and> \<not> snackbarVisible (toggleCategory ''Social Events'' env_no_user (Browse_mount True))"
proof -
  have r: "getCurrentUser_reply env_no_user = Resolved None"
    by (simp add: env_no_user_def env_created_def)
  have u: "usable_id None = None" by simp
  from toggle_without_usable_user [OF r u, of "''Social Events''" "Browse_mount True"]
  show ?thesis by (simp add: Browse_mount_def updatedCategories_def)
qed

text \<open>
  C10: in the create branch of \<^verbatim>\<open>saveCategoriesToDatabase\<close> the snackbar shows
  "Preferences updated successfully" also when \<^verbatim>\<open>createpreferences\<close> resolves with
  an undefined response or one without an id; no document id is cached then, and one
  console line records the anomaly.
\<close>

theorem create_without_id_shows_success:
  assumes "getCurrentUser_reply env = Resolved user" and "usable_id user = Some userId"
    and "when_truthy closure_documentId = None"
    and "outcome (createpreferences_reply env) = Resolved response"
    and "response_id response = None"
  shows "(let s' = saveCategoriesToDatabase closure_documentId env categories s
          in snackbarVisible s' \<and> snackbarMessage s' = ''Preferences updated successfully''
             \<and> documentId s' = documentId s
             \<and> console s' = console s @ [''Error: response from createpreferences is undefined'']
             \<and> calls s' = calls s @ [GetCurrentUser, CreatePreferences userId categories])"
  using assms
  by (simp add: save_defs)

theorem create_without_id_shows_success_witness:
  "snackbarMessage (saveCategoriesToDatabase None env_create_undefined [''Social Events'']
      (Browse_mount True)) = ''Preferences updated successfully''
   \<and> documentId (saveCategoriesToDatabase None env_create_undefined [''Social Events'']
      (Browse_mount True)) = None
   \<and> console (saveCategoriesToDatabase None env_create_undefined [''Social Events'']
      (Browse_mount True)) = [''Error: response from createpreferences is undefined'']"
proof -
  have r: "getCurrentUser_reply env_create_undefined = Resolved (Some alice)"
    by (simp add: env_create_undefined_def env_created_def)
  have u: "usable_id (Some alice) = Some ''u1''"
    by (simp add: alice_def when_truthy_def)
  have d: "when_truthy None = None" by (simp add: when_truthy_def)
  have c: "outcome (createpreferences_reply env_create_undefined) = Resolved None"
    by (simp add: env_create_undefined_def)
  have i: "response_id None = None" by simp
  from create_without_id_shows_success
         [OF r u d c i, of "[''Social Events'']" "Browse_mount True"]
  show ?thesis by (simp add: Let_def Browse_mount_def initial_documentId_def)
qed

section \<open>Properties of startup, news lists and failures\<close>

text \<open>
  C4: at startup, when \<^verbatim>\<open>getCurrentUser\<close> resolves with a user the application
  renders the route "Home"; when it rejects, or resolves with no user, it renders the
  route "Login". The first two cases hold whatever the context held before; the third
  rests on the initial value of \<^verbatim>\<open>isLoggedIn\<close> in the context.
\<close>

theorem App_entry_route:
  "fst (App_render (App_startup (Resolved (Some u)))) = RouteStack ''Home''
   \<and> fst (App_render (App_startup (Rejected e))) = RouteStack ''Login''
   \<and> fst (App_render (App_startup (Resolved None))) = RouteStack ''Login''
   \<and> fst (App_render (App_effect (Resolved (Some u)) (App_mount b))) = RouteStack ''Home''
   \<and> fst (App_render (App_effect (Rejected e) (App_mount b))) = RouteStack ''Login''"
  by (simp add: App_render_def App_startup_def App_effect_def App_mount_def
        context_isLoggedIn_initial_def)

theorem App_entry_route_witness:
  "fst (App_render (App_startup (Resolved (Some alice)))) = RouteStack ''Home''
   \<and> fst (App_render (App_startup (Rejected ''Network request failed''))) = RouteStack ''Login''
   \<and> fst (App_render (App_startup (Resolved None))) = RouteStack ''Login''"
  using App_entry_route [of alice "''Network request failed''" True]
  by simp

text \<open>
  What the Browse screen draws once a fetch has stored its result: the stored articles
  of every category, card by card, unless the address of some stored image cannot be
  encoded.
\<close>

lemma Browse_newsContainer_after_fetch:
  assumes "\<not> isLoading s" and "selectedCategories s \<noteq> []"
    and "map_of (newsData s) category = Some stored" and "distinct (map fst (newsData s))"
  shows "(if drawable_news b (newsData s)
          then \<exists>drawn cards. Browse_newsContainer b s = Inr (Categories drawn) \<and>
                 map_of drawn category = Some cards \<and> draws b cards stored
          else Browse_newsContainer b s = Inl URIError)"
proof -
  from assms(3) have ne: "newsData s \<noteq> []" by auto
  have c: "Browse_newsContainer b s =
             (case render_categories b (newsData s) of
                Inl e \<Rightarrow> Inl e
              | Inr drawn \<Rightarrow> Inr (Categories drawn))"
    using assms(1,2) ne by (simp add: Browse_newsContainer_def)
  show ?thesis
  proof (cases "drawable_news b (newsData s)")
    case True
    from render_categories_drawable [OF True] assms(3) obtain drawn cards where
      "render_categories b (newsData s) = Inr drawn"
      "map_of drawn category = Some cards" "draws b cards stored"
      by blast
    with True show ?thesis by (auto simp: c)
  next
    case False
    from render_categories_throws [OF assms(4) False] False show ?thesis
      by (simp add: c)
  qed
qed

lemma Browse_stores_and_draws:
  assumes sel: "category \<in> set (selectedCategories s)"
    and r: "api [category] = Resolved (Some response)"
    and a: "map_of response category = Some articles"
  shows "(if \<exists>c \<in> set (selectedCategories s). step_throws api c
          then newsData (fetchNewsData api s) = newsData s
          else if category = ''__proto__''
          then map_of (newsData (fetchNewsData api s)) category = None
          else map_of (newsData (fetchNewsData api s)) category = Some (take 20 articles) \<and>
               (if drawable_news b (newsData (fetchNewsData api s))
                then \<exists>drawn cards.
                       Browse_newsContainer b (fetchNewsData api s) = Inr (Categories drawn) \<and>
                       map_of drawn category = Some cards \<and>
                       draws b cards (take 20 articles)
                else Browse_newsContainer b (fetchNewsData api s) = Inl URIError))"
proof (cases "\<exists>c \<in> set (selectedCategories s). step_throws api c")
  case True
  from fetchNewsData_thrown(3) [OF True] True show ?thesis by simp
next
  case no: False
  note st = fetchNewsData_stores [OF no sel r a]
  show ?thesis
  proof (cases "category = ''__proto__''")
    case True
    with no st(2) show ?thesis by simp
  next
    case False
    from sel fetchNewsData_completed(3) [OF no]
    have ne: "selectedCategories (fetchNewsData api s) \<noteq> []" by auto
    from Browse_newsContainer_after_fetch
           [OF fetchNewsData_completed(2) [OF no] ne st(1) [OF False] st(3), of b]
      no False st(1) [OF False]
    show ?thesis by simp
  qed
qed

lemma Trending_stores_and_draws:
  assumes d: "distinct (map fst entries)" and m: "(category, articles) \<in> set entries"
  shows "(if category = ''__proto__''
          then map_of (t_newsData (Trending_fetchNewsData (Resolved (Some entries)) t)) category
                 = None
          else map_of (t_newsData (Trending_fetchNewsData (Resolved (Some entries)) t)) category
                 = Some (take 20 articles) \<and>
               (if drawable_news b (t_newsData (Trending_fetchNewsData (Resolved (Some entries)) t))
                then \<exists>drawn cards.
                       Trending_newsContainer b
                         (Trending_fetchNewsData (Resolved (Some entries)) t) = Inr drawn \<and>
                       map_of drawn category = Some cards \<and>
                       draws b cards (take 20 articles)
                else Trending_newsContainer b
                       (Trending_fetchNewsData (Resolved (Some entries)) t) = Inl URIError))"
proof -
  let ?nd = "slice_entries entries []"
  have n: "t_newsData (Trending_fetchNewsData (Resolved (Some entries)) t) = ?nd"
    by (simp add: Trending_fetchNewsData_def)
  have c: "Trending_newsContainer b (Trending_fetchNewsData (Resolved (Some entries)) t)
             = render_categories b ?nd"
    by (simp add: Trending_newsContainer_def n)
  from d m have e: "map_of entries category = Some articles" by simp
  have l: "map_of ?nd category =
             (if category = ''__proto__'' then None else Some (take 20 articles))"
    using e by (simp add: slice_entries_lookup [OF d])
  have dn: "distinct (map fst ?nd)" by (rule slice_entries_distinct) simp
  show ?thesis
  proof (cases "category = ''__proto__''")
    case True
    with l show ?thesis by (simp add: n)
  next
    case False
    with l have s: "map_of ?nd category = Some (take 20 articles)" by simp
    show ?thesis
    proof (cases "drawable_news b ?nd")
      case True
      from render_categories_drawable [OF True] s obtain drawn cards where
        "render_categories b ?nd = Inr drawn"
        "map_of drawn category = Some cards" "draws b cards (take 20 articles)"
        by blast
      with True False s show ?thesis by (auto simp: n c)
    next
      case bad: False
      from render_categories_throws [OF dn bad] bad False s show ?thesis
        by (simp add: n c)
    qed
  qed
qed

text \<open>
  C5: of the articles the news service returns for a category, the screen stores and
  draws at most the first 20, in the order of the response.

  Browse: for a selected category the service answers with articles, the fetch either
  is left by an exception in some turn of its loop, and then stores nothing, or it
  stores exactly the first 20 articles for that category (nothing for the key
  \<^verbatim>\<open>__proto__\<close>, which an assignment cannot create). After the fetch the screen draws
  one card for each stored article, in their order, with that article's title, date
  line and encoded image address, unless \<^verbatim>\<open>encodeURI\<close> throws on a stored
  address. Whatever the service answers, a list the fetch has stored holds at most 20
  articles. Trending: the same for every entry of the response.
\<close>

theorem first_20_articles_stored_and_rendered:
  "(category \<in> set (selectedCategories s) \<and>
    api [category] = Resolved (Some response) \<and>
    map_of response category = Some articles \<longrightarrow>
      (if \<exists>c \<in> set (selectedCategories s). step_throws api c
       then newsData (fetchNewsData api s) = newsData s
       else if category = ''__proto__''
       then map_of (newsData (fetchNewsData api s)) category = None
       else map_of (newsData (fetchNewsData api s)) category = Some (take 20 articles) \<and>
            (if drawable_news b (newsData (fetchNewsData api s))
             then \<exists>drawn cards.
                    Browse_newsContainer b (fetchNewsData api s) = Inr (Categories drawn) \<and>
                    map_of drawn category = Some cards \<and>
                    draws b cards (take 20 articles)
             else Browse_newsContainer b (fetchNewsData api s) = Inl URIError)))
   \<and>
   (\<forall>(c, xs) \<in> set (newsData (fetchNewsData api s)).
      length xs \<le> 20 \<or> (c, xs) \<in> set (newsData s))
   \<and>
   (distinct (map fst entries) \<and> (category', articles') \<in> set entries \<longrightarrow>
      (if category' = ''__proto__''
       then map_of (t_newsData (Trending_fetchNewsData (Resolved (Some entries)) t)) category'
              = None
       else map_of (t_newsData (Trending_fetchNewsData (Resolved (Some entries)) t)) category'
              = Some (take 20 articles') \<and>
            (if drawable_news b (t_newsData (Trending_fetchNewsData (Resolved (Some entries)) t))
             then \<exists>drawn cards.
                    Trending_newsContainer b
                      (Trending_fetchNewsData (Resolved (Some entries)) t) = Inr drawn \<and>
                    map_of drawn category' = Some cards \<and>
                    draws b cards (take 20 articles')
             else Trending_newsContainer b
                    (Trending_fetchNewsData (Resolved (Some entries)) t) = Inl URIError)))
   \<and>
   (\<forall>(c, xs) \<in> set (t_newsData (Trending_fetchNewsData (Resolved (Some entries)) t)).
      length xs \<le> 20)"
proof (intro conjI impI)
  assume "category \<in> set (selectedCategories s) \<and>
    api [category] = Resolved (Some response) \<and>
    map_of response category = Some articles"
  then have sel: "category \<in> set (selectedCategories s)"
    and r: "api [category] = Resolved (Some response)"
    and a: "map_of response category = Some articles" by blast+
  show "(if \<exists>c \<in> set (selectedCategories s). step_throws api c
       then newsData (fetchNewsData api s) = newsData s
       else if category = ''__proto__''
       then map_of (newsData (fetchNewsData api s)) category = None
       else map_of (newsData (fetchNewsData api s)) category = Some (take 20 articles) \<and>
            (if drawable_news b (newsData (fetchNewsData api s))
             then \<exists>drawn cards.
                    Browse_newsContainer b (fetchNewsData api s) = Inr (Categories drawn) \<and>
                    map_of drawn category = Some cards \<and>
                    draws b cards (take 20 articles)
             else Browse_newsContainer b (fetchNewsData api s) = Inl URIError))"
    by (rule Browse_stores_and_draws [where api = api, OF sel r a])
next
  show "\<forall>(c, xs) \<in> set (newsData (fetchNewsData api s)).
      length xs \<le> 20 \<or> (c, xs) \<in> set (newsData s)"
    by (rule fetchNewsData_bound)
next
  assume "distinct (map fst entries) \<and> (category', articles') \<in> set entries"
  then have d: "distinct (map fst entries)" and m: "(category', articles') \<in> set entries"
    by blast+
  show "(if category' = ''__proto__''
       then map_of (t_newsData (Trending_fetchNewsData (Resolved (Some entries)) t)) category'
              = None
       else map_of (t_newsData (Trending_fetchNewsData (Resolved (Some entries)) t)) category'
              = Some (take 20 articles') \<and>
            (if drawable_news b (t_newsData (Trending_fetchNewsData (Resolved (Some entries)) t))
             then \<exists>drawn cards.
                    Trending_newsContainer b
                      (Trending_fetchNewsData (Resolved (Some entries)) t) = Inr drawn \<and>
                    map_of drawn category' = Some cards \<and>
                    draws b cards (take 20 articles')
             else Trending_newsContainer b
                    (Trending_fetchNewsData (Resolved (Some entries)) t) = Inl URIError))"
    by (rule Trending_stores_and_draws [OF d m])
next
  have "t_newsData (Trending_fetchNewsData (Resolved (Some entries)) t) = slice_entries entries []"
    by (simp add: Trending_fetchNewsData_def)
  moreover have "\<forall>(c, xs) \<in> set (slice_entries entries []). length xs \<le> 20"
    by (rule slice_entries_bound) simp
  ultimately show
    "\<forall>(c, xs) \<in> set (t_newsData (Trending_fetchNewsData (Resolved (Some entries)) t)).
      length xs \<le> 20"
    by simp
qed

text \<open>
  The theorem at a response of 25 articles: on either screen 20 are stored, and 20
  cards are drawn that show these articles.
\<close>

theorem first_20_articles_stored_and_rendered_witness:
  "map_of (newsData (fetchNewsData api_ok after_toggle)) ''Social Events''
     = Some (replicate 20 article1)
   \<and> (\<exists>drawn cards.
        Browse_newsContainer sample_builtins (fetchNewsData api_ok after_toggle)
          = Inr (Categories drawn) \<and>
        map_of drawn ''Social Events'' = Some cards \<and>
        map card_article cards = replicate 20 article1 \<and>
        map card_title cards = replicate 20 ''A'' \<and>
        map card_date cards = replicate 20 ''Published on: 2024-05-01'' \<and>
        map card_image cards = replicate 20 (Some ''https://example.org/a.png''))
   \<and> map_of (t_newsData (Trending_fetchNewsData
         (Resolved (Some [(''general'', replicate 25 article1)])) (Trending_mount False)))
       ''general''
     = Some (replicate 20 article1)
   \<and> (\<exists>drawn cards.
        Trending_newsContainer sample_builtins
          (Trending_fetchNewsData (Resolved (Some [(''general'', replicate 25 article1)]))
             (Trending_mount False)) = Inr drawn \<and>
        map_of drawn ''general'' = Some cards \<and>
        map card_article cards = replicate 20 article1 \<and>
        map card_title cards = replicate 20 ''A'')"
proof -
  let ?entries = "[(''general'', replicate 25 article1)]"
  let ?t = "Trending_fetchNewsData (Resolved (Some ?entries)) (Trending_mount False)"
  have h1: "''Social Events'' \<in> set (selectedCategories after_toggle) \<and>
      api_ok [''Social Events''] = Resolved (Some [(''Social Events'', replicate 25 article1)]) \<and>
      map_of [(''Social Events'', replicate 25 article1)] ''Social Events''
        = Some (replicate 25 article1)"
    by (simp add: after_toggle_eq api_ok_def)
  have h2: "distinct (map fst ?entries) \<and> (''general'', replicate 25 article1) \<in> set ?entries"
    by simp
  have no: "\<not> (\<exists>c \<in> set (selectedCategories after_toggle). step_throws api_ok c)"
    by (simp add: after_toggle_eq step_throws_def api_ok_def get_member_def)
  have k: "''Social Events'' \<noteq> ''__proto__''" "''general'' \<noteq> ''__proto__''" by simp_all
  have dr: "drawable sample_builtins article1"
    by (simp add: drawable_def sample_builtins_def article1_def when_truthy_def)
  have w: "newsData (fetchNewsData api_ok after_toggle)
             = [(''Social Events'', replicate 20 article1)]"
    using with_news_eq by (simp add: with_news_def)
  have d1: "drawable_news sample_builtins (newsData (fetchNewsData api_ok after_toggle))"
    using dr by (simp add: w drawable_news_def)
  have d2: "drawable_news sample_builtins (t_newsData ?t)"
    using dr
    by (simp add: drawable_news_def Trending_fetchNewsData_def slice_entries_def set_member_def)
  from first_20_articles_stored_and_rendered
         [where s = after_toggle and api = api_ok and category = "''Social Events''"
            and response = "[(''Social Events'', replicate 25 article1)]"
            and articles = "replicate 25 article1" and b = sample_builtins
            and entries = ?entries
            and category' = "''general''" and articles' = "replicate 25 article1"
            and t = "Trending_mount False"]
       h1 h2 no k d1 d2
  have "map_of (newsData (fetchNewsData api_ok after_toggle)) ''Social Events''
          = Some (take 20 (replicate 25 article1))
      \<and> (\<exists>drawn cards.
           Browse_newsContainer sample_builtins (fetchNewsData api_ok after_toggle)
             = Inr (Categories drawn) \<and>
           map_of drawn ''Social Events'' = Some cards \<and>
           draws sample_builtins cards (take 20 (replicate 25 article1)))
      \<and> map_of (t_newsData ?t) ''general'' = Some (take 20 (replicate 25 article1))
      \<and> (\<exists>drawn cards.
           Trending_newsContainer sample_builtins ?t = Inr drawn \<and>
           map_of drawn ''general'' = Some cards \<and>
           draws sample_builtins cards (take 20 (replicate 25 article1)))"
    by simp
  then obtain drawn cards drawn' cards' where
    stored: "map_of (newsData (fetchNewsData api_ok after_toggle)) ''Social Events''
               = Some (take 20 (replicate 25 article1))"
    and browse: "Browse_newsContainer sample_builtins (fetchNewsData api_ok after_toggle)
                   = Inr (Categories drawn)"
      "map_of drawn ''Social Events'' = Some cards"
      "draws sample_builtins cards (take 20 (replicate 25 article1))"
    and stored': "map_of (t_newsData ?t) ''general'' = Some (take 20 (replicate 25 article1))"
    and trending: "Trending_newsContainer sample_builtins ?t = Inr drawn'"
      "map_of drawn' ''general'' = Some cards'"
      "draws sample_builtins cards' (take 20 (replicate 25 article1))"
    by blast
  have e: "take 20 (replicate 25 article1) = replicate 20 article1" by simp
  have f: "title article1 = ''A''" "publishedAt article1 = ''2024-05-01T10:00:00Z''"
    "urlToImage article1 = Some ''https://example.org/a.png''"
    by (simp_all add: article1_def)
  from browse(3) have c:
    "map card_article cards = replicate 20 article1"
    "map card_title cards = replicate 20 ''A''"
    "map card_date cards = replicate 20 ''Published on: 2024-05-01''"
    "map card_image cards = replicate 20 (Some ''https://example.org/a.png'')"
    by (simp_all add: draws_def e f sample_builtins_def when_truthy_def)
  from trending(3) have c':
    "map card_article cards' = replicate 20 article1"
    "map card_title cards' = replicate 20 ''A''"
    by (simp_all add: draws_def e f)
  from stored stored' have s:
    "map_of (newsData (fetchNewsData api_ok after_toggle)) ''Social Events''
       = Some (replicate 20 article1)"
    "map_of (t_newsData ?t) ''general'' = Some (replicate 20 article1)"
    by (simp_all only: e)
  from s browse(1,2) c trending(1,2) c' show ?thesis by blast
qed




text \<open>
  C7: at startup a rejection of \<^verbatim>\<open>getCurrentUser\<close> gives the same rendering as its
  resolving with no user. In \<^verbatim>\<open>loadSavedCategories\<close> a rejection of
  \<^verbatim>\<open>getCurrentUser\<close> leaves the screen as its resolving with no user does, one
  console line apart. A rejection of \<^verbatim>\<open>getpreferences\<close> keeps the selected list and
  the document id, where resolving with no document resets them to the empty list and
  null; apart from these two cells and the console line the two outcomes agree.
\<close>

theorem rejection_versus_absence:
  "App_render (App_startup (Rejected e)) = App_render (App_startup (Resolved None))
   \<and> (load_getCurrentUser_reply uenv = Rejected e \<longrightarrow>
        loadSavedCategories uenv s =
          console_log (''Error fetching saved categories: '' @ e)
            (loadSavedCategories (uenv\<lparr> load_getCurrentUser_reply := Resolved None \<rparr>) s))
   \<and> (load_getCurrentUser_reply penv = Resolved user \<and> usable_id user = Some uid \<and>
       outcome (getpreferences_reply penv) = Rejected e \<longrightarrow>
        (let rejected = loadSavedCategories penv s;
             absent = loadSavedCategories
                        (penv\<lparr> getpreferences_reply :=
                                 (getpreferences_reply penv)\<lparr> outcome := Resolved None \<rparr> \<rparr>) s
         in selectedCategories rejected = selectedCategories s \<and>
            documentId rejected = documentId s \<and>
            selectedCategories absent = [] \<and> documentId absent = None \<and>
            rejected = console_log (''Error fetching saved categories: '' @ e)
                         (absent\<lparr> selectedCategories := selectedCategories s,
                                  documentId := documentId s \<rparr>)))"
  by (simp add: App_render_def App_startup_def App_effect_def App_mount_def
        context_isLoggedIn_initial_def load_defs)

theorem rejection_versus_absence_witness:
  "loadSavedCategories env_load_user_rejected after_toggle =
     console_log ''Error fetching saved categories: Network request failed''
       (loadSavedCategories (env_load_user_rejected\<lparr> load_getCurrentUser_reply := Resolved None \<rparr>)
          after_toggle)
   \<and> selectedCategories (loadSavedCategories env_prefs_rejected after_toggle) = [''Social Events'']
   \<and> selectedCategories (loadSavedCategories
        (env_prefs_rejected\<lparr> getpreferences_reply :=
           (getpreferences_reply env_prefs_rejected)\<lparr> outcome := Resolved None \<rparr> \<rparr>)
        after_toggle) = []"
proof -
  have h1: "load_getCurrentUser_reply env_load_user_rejected = Rejected ''Network request failed''"
    by (simp add: env_load_user_rejected_def)
  have h2: "load_getCurrentUser_reply env_prefs_rejected = Resolved (Some alice) \<and>
      usable_id (Some alice) = Some ''u1'' \<and>
      outcome (getpreferences_reply env_prefs_rejected) = Rejected ''Network request failed''"
    by (simp add: env_prefs_rejected_def alice_def when_truthy_def)
  have c: "selectedCategories after_toggle = [''Social Events'']"
    by (simp add: after_toggle_eq)
  from rejection_versus_absence
         [where uenv = env_load_user_rejected and penv = env_prefs_rejected
            and s = after_toggle and e = "''Network request failed''"
            and user = "Some alice" and uid = "''u1''", unfolded Let_def]
       h1 h2
  have "loadSavedCategories env_load_user_rejected after_toggle =
          console_log (''Error fetching saved categories: '' @ ''Network request failed'')
            (loadSavedCategories
               (env_load_user_rejected\<lparr> load_getCurrentUser_reply := Resolved None \<rparr>) after_toggle)
      \<and> selectedCategories (loadSavedCategories env_prefs_rejected after_toggle)
          = selectedCategories after_toggle
      \<and> selectedCategories (loadSavedCategories
           (env_prefs_rejected\<lparr> getpreferences_reply :=
              (getpreferences_reply env_prefs_rejected)\<lparr> outcome := Resolved None \<rparr> \<rparr>)
           after_toggle) = []"
    by blast
  then show ?thesis by (simp add: c)
qed

text \<open>
  As stated, with a rejection indistinguishable from an absent document, the property
  fails: a user who has selected a category pulls to refresh; when
  \<^verbatim>\<open>getpreferences\<close> rejects the selection and the document id stay, when it
  resolves with no document both are cleared.
\<close>

theorem rejected_getpreferences_differs_from_absent:
  "selectedCategories after_toggle = [''Social Events'']
   \<and> selectedCategories (onRefresh env_prefs_rejected after_toggle) = [''Social Events'']
   \<and> documentId (onRefresh env_prefs_rejected after_toggle) = Some ''doc1''
   \<and> selectedCategories (onRefresh env_prefs_absent after_toggle) = []
   \<and> documentId (onRefresh env_prefs_absent after_toggle) = None"
  by (simp add: onRefresh_def load_defs after_toggle_eq env_prefs_rejected_def
        env_prefs_absent_def alice_def when_truthy_def Browse_mount_def)

text \<open>
  C8: when a toggle empties the selected list, the effect on \<^verbatim>\<open>selectedCategories\<close>
  issues no news fetch and changes nothing, so the news mapping fetched before stays in
  the state; with no fetch in flight the screen draws the empty-state text in place of
  the stored articles.
\<close>

theorem deselecting_last_category_keeps_news:
  assumes "updatedCategories (selectedCategories s) category = []"
  shows "(let t = toggleCategory category env s;
              s' = selectedCategories_effect api t
          in selectedCategories t = [] \<and> s' = t \<and>
             filter is_fetch (calls s') = filter is_fetch (calls s) \<and>
             newsData s' = newsData s \<and>
             (\<not> isLoading s \<longrightarrow>
                Browse_newsContainer b s'
                  = Inr (EmptyStateText ''Select categories to see news'')))"
  using assms
  by (simp add: Let_def selectedCategories_effect_def toggleCategory_selected
        toggleCategory_frame toggleCategory_calls Browse_newsContainer_def
        split: promise.split option.split)

theorem deselecting_last_category_keeps_news_witness:
  "selectedCategories (toggleCategory ''Social Events'' env_created with_news) = []
   \<and> newsData (selectedCategories_effect api_ok
        (toggleCategory ''Social Events'' env_created with_news))
     = [(''Social Events'', replicate 20 article1)]
   \<and> Browse_newsContainer sample_builtins (selectedCategories_effect api_ok
        (toggleCategory ''Social Events'' env_created with_news))
     = Inr (EmptyStateText ''Select categories to see news'')"
proof -
  have h: "updatedCategories (selectedCategories with_news) ''Social Events'' = []"
    by (simp add: with_news_eq after_toggle_eq updatedCategories_def)
  have l: "\<not> isLoading with_news"
    by (simp add: with_news_eq after_toggle_eq Browse_mount_def)
  have n: "newsData with_news = [(''Social Events'', replicate 20 article1)]"
    by (simp add: with_news_eq)
  from deselecting_last_category_keeps_news
         [OF h, of env_created api_ok sample_builtins, unfolded Let_def] l
  have "selectedCategories (toggleCategory ''Social Events'' env_created with_news) = []
      \<and> newsData (selectedCategories_effect api_ok
           (toggleCategory ''Social Events'' env_created with_news)) = newsData with_news
      \<and> Browse_newsContainer sample_builtins (selectedCategories_effect api_ok
           (toggleCategory ''Social Events'' env_created with_news))
        = Inr (EmptyStateText ''Select categories to see news'')"
    by blast
  then show ?thesis by (simp add: n)
qed

end
